theory Spec2Isabelle
  imports Complex_Main "HOL-Library.Log_Nat"
begin

section \<open>Python values, exceptions and floats\<close>

text \<open>
  A Python \<open>float\<close> is an IEEE binary64 value. The finite ones are rational numbers, so a
  finite float is carried as the rational it denotes; the three special values are
  constructors of their own.
\<close>

datatype py_float = Finite rat | PosInf | NegInf | NaN

text \<open>
  The values that a JSON document parses to, and that a dict literal handed to
  \<open>requests.post(json=...)\<close> is built from. A dict keeps its keys in insertion order.
\<close>

datatype py_value =
    PNone
  | PBool bool
  | PInt int
  | PFloat py_float
  | PStr string
  | PList "py_value list"
  | PDict "(string \<times> py_value) list"

text \<open>Truth value testing, as \<open>if v:\<close> does it.\<close>

fun truthy :: "py_value \<Rightarrow> bool" where
  "truthy PNone = False"
| "truthy (PBool b) = b"
| "truthy (PInt n) = (n \<noteq> 0)"
| "truthy (PFloat f) = (f \<noteq> Finite 0)"
| "truthy (PStr s) = (s \<noteq> [])"
| "truthy (PList xs) = (xs \<noteq> [])"
| "truthy (PDict kvs) = (kvs \<noteq> [])"

text \<open>
  The exceptions that can reach the program. \<open>KeyboardInterrupt\<close> and \<open>SystemExit\<close>
  derive from \<open>BaseException\<close> only; all the others are instances of \<open>Exception\<close>.
\<close>

datatype exn =
    AssertionError string
  | ZeroDivisionError
  | OverflowError
  | OSError string
  | ConnectionError string
  | Timeout string
  | JSONDecodeError string
  | OtherException string
  | KeyboardInterrupt
  | SystemExit

fun isinstance_Exception :: "exn \<Rightarrow> bool" where
  "isinstance_Exception KeyboardInterrupt = False"
| "isinstance_Exception SystemExit = False"
| "isinstance_Exception _ = True"

subsection \<open>True division of integers\<close>

text \<open>
  \<open>a / b\<close> on two Python ints is the exact quotient of two unbounded integers, rounded
  once to the nearest binary64 value, ties to even. A zero divisor raises
  \<open>ZeroDivisionError\<close>, a quotient beyond the binary64 range raises \<open>OverflowError\<close>.
\<close>

definition round_half_even :: "rat \<Rightarrow> int" where
  "round_half_even y =
     (let f = \<lfloor>y\<rfloor>; d = y - of_int f
      in if d < 1 / 2 then f
         else if 1 / 2 < d then f + 1
         else if even f then f else f + 1)"

text \<open>The exponent \<open>e\<close> with \<open>2 ^ e \<le> |x| < 2 ^ (e + 1)\<close>, for \<open>x \<noteq> 0\<close>.\<close>

definition binade :: "rat \<Rightarrow> int" where
  "binade x =
     (let (p, q) = quotient_of \<bar>x\<bar>; d = bitlen p - bitlen q
      in if 2 powi d \<le> \<bar>x\<bar> then d else d - 1)"

text \<open>
  Rounding to 53 significant bits; below \<open>2 ^ -1022\<close> the spacing stays \<open>2 ^ -1074\<close>
  (subnormal numbers).
\<close>

definition round_double :: "rat \<Rightarrow> rat" where
  "round_double x =
     (if x = 0 then 0
      else let q = max (binade x - 52) (- 1074)
           in of_int (round_half_even (x / 2 powi q)) * 2 powi q)"

definition py_truediv :: "int \<Rightarrow> int \<Rightarrow> exn + rat" where
  "py_truediv a b =
     (if b = 0 then Inl ZeroDivisionError
      else let r = round_double (of_int a / of_int b)
           in if 2 ^ 1024 \<le> \<bar>r\<bar> then Inl OverflowError else Inr r)"

text \<open>\<open>x > 0\<close> on a float: false for NaN.\<close>

fun float_gt_zero :: "py_float \<Rightarrow> bool" where
  "float_gt_zero (Finite r) = (0 < r)"
| "float_gt_zero PosInf = True"
| "float_gt_zero NegInf = False"
| "float_gt_zero NaN = False"

text \<open>\<open>x <= 0\<close> on a float: false for NaN.\<close>

fun float_le_zero :: "py_float \<Rightarrow> bool" where
  "float_le_zero (Finite r) = (r \<le> 0)"
| "float_le_zero PosInf = False"
| "float_le_zero NegInf = True"
| "float_le_zero NaN = False"

subsection \<open>Joining URL parts with \<open>os.path.join\<close>\<close>

text \<open>
  The POSIX \<open>os.path.join(a, *p)\<close>: a part that starts with a slash discards what came
  before it; otherwise the part is appended, after a slash unless the path so far is empty
  or already ends with one.
\<close>

definition startswith_sep :: "string \<Rightarrow> bool" where
  "startswith_sep b = (case b of [] \<Rightarrow> False | c # _ \<Rightarrow> c = CHR ''/'')"

definition endswith_sep :: "string \<Rightarrow> bool" where
  "endswith_sep p = (case rev p of [] \<Rightarrow> False | c # _ \<Rightarrow> c = CHR ''/'')"

definition join_part :: "string \<Rightarrow> string \<Rightarrow> string" where
  "join_part path b =
     (if startswith_sep b then b
      else if path = [] \<or> endswith_sep path then path @ b
      else path @ ''/'' @ b)"

definition os_path_join :: "string \<Rightarrow> string list \<Rightarrow> string" where
  "os_path_join a p = foldl join_part a p"

section \<open>The reporter\<close>

text \<open>The named tuple that \<open>shutil.disk_usage\<close> returns: \<open>total\<close>, \<open>used\<close>, \<open>free\<close>, in bytes.\<close>

record usage =
  total_bytes :: int
  used_bytes :: int
  free_bytes :: int

text \<open>
  A \<open>requests.Response\<close>: the program reads nothing of it but \<open>response.json()\<close>, which
  returns the parsed body or raises. The body is received once, so the second call of line
  61 returns what the call of line 60 returned.
\<close>

record response =
  status_code :: int
  json_result :: "exn + py_value"

text \<open>The arguments of \<open>main\<close>, as the command line gives them.\<close>

record args =
  hostname :: string
  path :: string
  mount :: string
  ha_rest_api_url :: "string option"
  interval :: py_float

text \<open>
  What the outside world answers in one iteration: the result of \<open>shutil.disk_usage\<close>,
  of \<open>requests.post\<close>, and of \<open>time.sleep\<close> (which raises when a signal interrupts it or
  the delay is too large for the clock).
\<close>

record world =
  disk_usage :: "exn + usage"
  post :: "exn + response"
  sleep :: "exn option"

text \<open>The observable actions: calls to the operating system, the network and the logger.\<close>

datatype level = DEBUG | ERROR

datatype log_record =
    Posting string py_value
  | GotResponse response
  | ResponseJSON py_value
  | GotException exn
  | Sleeping py_float

datatype event =
    DiskUsage string
  | Log level log_record
  | Post string "(string \<times> string) list" py_value
  | Sleep py_float

text \<open>Lines 33 and 34: both percentages, or the exception of the first division that raises.\<close>

definition percentages :: "usage \<Rightarrow> exn + (rat \<times> rat)" where
  "percentages u =
     (case py_truediv (used_bytes u * 100) (total_bytes u) of
        Inl e \<Rightarrow> Inl e
      | Inr used_percentage \<Rightarrow>
          (case py_truediv (free_bytes u * 100) (total_bytes u) of
             Inl e \<Rightarrow> Inl e
           | Inr free_percentage \<Rightarrow> Inr (used_percentage, free_percentage)))"

text \<open>Lines 36 to 53: the header, the body and the URL of the request.\<close>

definition headers :: "string \<Rightarrow> (string \<times> string) list" where
  "headers key = [(''Authorization'', ''Bearer '' @ key)]"

definition json :: "args \<Rightarrow> usage \<Rightarrow> rat \<Rightarrow> rat \<Rightarrow> py_value" where
  "json a u used_percentage free_percentage =
     PDict [
       (''state'', PFloat (Finite used_percentage)),
       (''attributes'', PDict [
          (''friendly_name'', PStr (hostname a @ '' '' @ mount a @ '' Disk Usage'')),
          (''unit_of_measurement'', PStr ''%''),
          (''used_percentage'', PFloat (Finite used_percentage)),
          (''free_percentage'', PFloat (Finite free_percentage)),
          (''total_bytes'', PInt (total_bytes u)),
          (''used_bytes'', PInt (used_bytes u)),
          (''free_bytes'', PInt (free_bytes u))])]"

definition entity_id :: "args \<Rightarrow> string" where
  "entity_id a = ''sensor.'' @ hostname a @ ''_'' @ mount a @ ''_disk_usage''"

definition url :: "string \<Rightarrow> args \<Rightarrow> string" where
  "url base a = os_path_join base [''states'', entity_id a]"

text \<open>
  Lines 56 to 61, the body of the \<open>try\<close>: the actions performed and the exception that
  ended it, if any.
\<close>

definition try_block ::
  "string \<Rightarrow> (string \<times> string) list \<Rightarrow> py_value \<Rightarrow> world \<Rightarrow> event list \<times> exn option" where
  "try_block u h j w =
     (case post w of
        Inl e \<Rightarrow> ([Post u h j], Some e)
      | Inr r \<Rightarrow>
          (case json_result r of
             Inl e \<Rightarrow> ([Post u h j, Log DEBUG (GotResponse r)], Some e)
           | Inr v \<Rightarrow>
               if truthy v
               then ([Post u h j, Log DEBUG (GotResponse r), Log DEBUG (ResponseJSON v)], None)
               else ([Post u h j, Log DEBUG (GotResponse r)], None)))"

text \<open>
  Lines 55 to 63: \<open>except Exception\<close> handles an instance of \<open>Exception\<close> by logging it; any
  other exception leaves the statement.
\<close>

definition try_except ::
  "string \<Rightarrow> (string \<times> string) list \<Rightarrow> py_value \<Rightarrow> world \<Rightarrow> event list \<times> exn option" where
  "try_except u h j w =
     (case try_block u h j w of
        (evs, None) \<Rightarrow> (evs, None)
      | (evs, Some e) \<Rightarrow>
          if isinstance_Exception e then (evs @ [Log ERROR (GotException e)], None)
          else (evs, Some e))"

text \<open>
  Lines 32 to 65, one pass through the body of \<open>while True\<close>: the actions performed, and
  the exception that left the body, if any.
\<close>

definition loop_body :: "string \<Rightarrow> string \<Rightarrow> args \<Rightarrow> world \<Rightarrow> event list \<times> exn option" where
  "loop_body key base a w =
     (case disk_usage w of
        Inl e \<Rightarrow> ([DiskUsage (path a)], Some e)
      | Inr u \<Rightarrow>
          (case percentages u of
             Inl e \<Rightarrow> ([DiskUsage (path a)], Some e)
           | Inr (used_percentage, free_percentage) \<Rightarrow>
               let j = json a u used_percentage free_percentage;
                   l = url base a;
                   before = [DiskUsage (path a), Log DEBUG (Posting l j)]
               in (case try_except l (headers key) j w of
                     (evs, Some e) \<Rightarrow> (before @ evs, Some e)
                   | (evs, None) \<Rightarrow>
                       (before @ evs @ [Log DEBUG (Sleeping (interval a)), Sleep (interval a)],
                        sleep w))))"

text \<open>
  The loop never ends by itself. It is run against the answers of the world for finitely
  many iterations: it either stops with the exception that left the body, or is still
  running when the answers are used up.
\<close>

datatype status = Running | Terminated exn

fun while_true :: "string \<Rightarrow> string \<Rightarrow> args \<Rightarrow> world list \<Rightarrow> event list \<times> status" where
  "while_true key base a [] = ([], Running)"
| "while_true key base a (w # ws) =
     (case loop_body key base a w of
        (evs, Some e) \<Rightarrow> (evs, Terminated e)
      | (evs, None) \<Rightarrow>
          (case while_true key base a ws of (evs', st) \<Rightarrow> (evs @ evs', st)))"

text \<open>
  Lines 26 to 31: \<open>os.getenv\<close> gives \<open>None\<close> for an unset variable; \<open>assert x\<close> on an
  optional string fails for \<open>None\<close> and for the empty string. Assertions are enabled (the
  interpreter runs without \<open>-O\<close>).
\<close>

definition main :: "string option \<Rightarrow> args \<Rightarrow> world list \<Rightarrow> event list \<times> status" where
  "main getenv_key a ws =
     (case getenv_key of
        None \<Rightarrow> ([], Terminated (AssertionError ''Need to specify HA_API_KEY in environment!''))
      | Some key \<Rightarrow>
          if key = [] then
            ([], Terminated (AssertionError ''Need to specify HA_API_KEY in environment!''))
          else
            (case ha_rest_api_url a of
               None \<Rightarrow> ([], Terminated (AssertionError ''Please specify HA_REST_API_URL''))
             | Some base \<Rightarrow>
                 if base = [] then
                   ([], Terminated (AssertionError ''Please specify HA_REST_API_URL''))
                 else if \<not> float_gt_zero (interval a) then
                   ([], Terminated (AssertionError ''Stubbornly refusing to run tight loop''))
                 else while_true key base a ws))"

text \<open>
  The delays of the \<open>time.sleep\<close> calls of a run, in order: what the cadence of the loop is
  read from.
\<close>

fun sleeps :: "event list \<Rightarrow> py_float list" where
  "sleeps [] = []"
| "sleeps (Sleep d # evs) = d # sleeps evs"
| "sleeps (_ # evs) = sleeps evs"

subsection \<open>A concrete run\<close>

text \<open>
  The values of the specification's examples: host \<open>nas1\<close>, mount \<open>data\<close>, a sample of
  1000 bytes of which 400 are used and 600 free, and a world that answers the POST with a
  given outcome.
\<close>

definition example_args :: args where
  "example_args = \<lparr>hostname = ''nas1'', path = ''/srv/data'', mount = ''data'',
     ha_rest_api_url = Some ''http://ha:8123/api'', interval = Finite 60\<rparr>"

definition example_usage :: usage where
  "example_usage = \<lparr>total_bytes = 1000, used_bytes = 400, free_bytes = 600\<rparr>"

definition example_world :: "exn + response \<Rightarrow> world" where
  "example_world p = \<lparr>disk_usage = Inr example_usage, post = p, sleep = None\<rparr>"

section \<open>Rounding to binary64\<close>

text \<open>The exponent that \<open>binade\<close> computes from the bit lengths is the right one.\<close>

lemma bitlen_powi_bounds:
  assumes "0 < p"
  shows "(2::rat) powi (bitlen p - 1) \<le> of_int p" and "of_int p < (2::rat) powi bitlen p"
proof -
  have b1: "1 \<le> bitlen p"
    using assms bitlen_eq_zero_iff [of p] bitlen_nonneg [of p] by linarith
  have lo: "2 ^ nat (bitlen p - 1) \<le> p" and hi: "p < 2 ^ nat (bitlen p)"
    using bitlen_bounds [OF assms] by simp_all
  have "(of_int (2 ^ nat (bitlen p - 1)) :: rat) \<le> of_int p"
    using lo of_int_le_iff by blast
  then show "(2::rat) powi (bitlen p - 1) \<le> of_int p"
    using b1 by (simp add: power_int_def)
  have "(of_int p :: rat) < of_int (2 ^ nat (bitlen p))"
    using hi of_int_less_iff by blast
  then show "of_int p < (2::rat) powi bitlen p"
    using b1 by (simp add: power_int_def)
qed

lemma binade_bounds:
  assumes "x \<noteq> 0"
  shows "2 powi binade x \<le> \<bar>x\<bar>" and "\<bar>x\<bar> < 2 powi (binade x + 1)"
proof -
  obtain p q where pq: "quotient_of \<bar>x\<bar> = (p, q)"
    by (cases "quotient_of \<bar>x\<bar>")
  have q: "0 < q" using pq quotient_of_denom_pos by blast
  have x: "\<bar>x\<bar> = of_int p / of_int q" using pq quotient_of_div by blast
  have "0 < \<bar>x\<bar>" using assms by simp
  then have p: "0 < p" using x q by (simp add: zero_less_divide_iff)
  define d where "d = bitlen p - bitlen q"
  have qr: "(0::rat) < of_int q" using q by simp
  have up: "\<bar>x\<bar> < 2 powi (d + 1)"
  proof -
    have "of_int p < (2::rat) powi bitlen p" using bitlen_powi_bounds(2) [OF p] .
    also have "\<dots> = 2 powi (d + 1) * 2 powi (bitlen q - 1)"
      by (simp add: d_def power_int_add [symmetric])
    also have "\<dots> \<le> 2 powi (d + 1) * of_int q"
      using bitlen_powi_bounds(1) [OF q] by (simp add: mult_left_mono)
    finally have "of_int p / of_int q < (2::rat) powi (d + 1)"
      using qr by (simp add: pos_divide_less_eq)
    then show ?thesis using x by simp
  qed
  have lo: "2 powi (d - 1) \<le> \<bar>x\<bar>"
  proof -
    have "(2::rat) powi (d - 1) * of_int q \<le> 2 powi (d - 1) * 2 powi bitlen q"
      using bitlen_powi_bounds(2) [OF q] by (simp add: mult_left_mono)
    also have "\<dots> = 2 powi (bitlen p - 1)"
      by (simp add: d_def power_int_add [symmetric])
    also have "\<dots> \<le> of_int p" using bitlen_powi_bounds(1) [OF p] .
    finally have "(2::rat) powi (d - 1) \<le> of_int p / of_int q"
      using qr by (simp add: pos_le_divide_eq)
    then show ?thesis using x by simp
  qed
  have b: "binade x = (if 2 powi d \<le> \<bar>x\<bar> then d else d - 1)"
    by (simp add: binade_def pq d_def Let_def)
  show "2 powi binade x \<le> \<bar>x\<bar>" using b lo by simp
  show "\<bar>x\<bar> < 2 powi (binade x + 1)" using b up by (auto simp: not_le)
qed

lemma round_half_even_error: "\<bar>of_int (round_half_even y) - y\<bar> \<le> 1 / 2"
proof -
  define d where "d = y - of_int \<lfloor>y\<rfloor>"
  have d: "0 \<le> d" "d < 1" unfolding d_def by linarith+
  have y: "y = of_int \<lfloor>y\<rfloor> + d" unfolding d_def by simp
  have "round_half_even y = \<lfloor>y\<rfloor> \<and> d \<le> 1 / 2 \<or>
        round_half_even y = \<lfloor>y\<rfloor> + 1 \<and> 1 / 2 \<le> d"
    unfolding round_half_even_def Let_def d_def [symmetric]
    by (cases "d < 1 / 2"; cases "1 / 2 < d"; simp)
  then show ?thesis
  proof
    assume a: "round_half_even y = \<lfloor>y\<rfloor> \<and> d \<le> 1 / 2"
    then have "of_int (round_half_even y) - y = - d" by (simp add: d_def)
    then show ?thesis using d a by simp
  next
    assume a: "round_half_even y = \<lfloor>y\<rfloor> + 1 \<and> 1 / 2 \<le> d"
    then have "of_int (round_half_even y) - y = 1 - d" by (simp add: d_def)
    then show ?thesis using d a by simp
  qed
qed

lemma round_half_even_le: "y \<le> of_int n \<Longrightarrow> round_half_even y \<le> n"
proof -
  assume a: "y \<le> of_int n"
  have f: "\<lfloor>y\<rfloor> \<le> n" using a by (simp add: floor_le_iff)
  show ?thesis
  proof (cases "\<lfloor>y\<rfloor> = n")
    case True
    then have "y - of_int \<lfloor>y\<rfloor> \<le> 0" using a by simp
    then show ?thesis using True by (simp add: round_half_even_def Let_def)
  next
    case False
    then have "\<lfloor>y\<rfloor> + 1 \<le> n" using f by simp
    then show ?thesis by (simp add: round_half_even_def Let_def)
  qed
qed

lemma round_half_even_ge: "of_int n \<le> y \<Longrightarrow> n \<le> round_half_even y"
proof -
  assume "of_int n \<le> y"
  then have "n \<le> \<lfloor>y\<rfloor>" by (simp add: le_floor_iff)
  then show ?thesis by (simp add: round_half_even_def Let_def)
qed

lemma binade_ge:
  assumes "x \<noteq> 0" and "2 powi k \<le> \<bar>x\<bar>"
  shows "k \<le> binade x"
proof -
  have "(2::rat) powi k < 2 powi (binade x + 1)"
    using assms binade_bounds(2) [of x] by linarith
  then have "\<not> binade x + 1 \<le> k"
    using power_int_increasing [of "binade x + 1" k "2::rat"] by auto
  then show ?thesis by simp
qed

lemma binade_less:
  assumes "x \<noteq> 0" and "\<bar>x\<bar> < 2 powi k"
  shows "binade x < k"
proof -
  have "(2::rat) powi binade x < 2 powi k"
    using assms binade_bounds(1) [of x] by linarith
  then have "\<not> k \<le> binade x"
    using power_int_increasing [of k "binade x" "2::rat"] by auto
  then show ?thesis by simp
qed

lemma round_double_abs_error:
  assumes "x \<noteq> 0"
  shows "\<bar>round_double x - x\<bar> \<le> 2 powi (max (binade x - 52) (- 1074) - 1)"
proof -
  define q where "q = max (binade x - 52) (- 1074)"
  have pos: "(0::rat) < 2 powi q" by simp
  have r: "round_double x = of_int (round_half_even (x / 2 powi q)) * 2 powi q"
    using assms by (simp add: round_double_def q_def Let_def)
  have "round_double x - x = (of_int (round_half_even (x / 2 powi q)) - x / 2 powi q) * 2 powi q"
    using pos by (simp add: r algebra_simps)
  then have "\<bar>round_double x - x\<bar> = \<bar>of_int (round_half_even (x / 2 powi q)) - x / 2 powi q\<bar> * 2 powi q"
    using pos by (simp add: abs_mult)
  also have "\<dots> \<le> 1 / 2 * 2 powi q"
    using round_half_even_error [of "x / 2 powi q"] pos by (simp add: mult_right_mono)
  also have "\<dots> = 2 powi (q - 1)"
    by (simp add: power_int_diff)
  finally show ?thesis by (simp add: q_def)
qed

lemma round_double_rel_error:
  assumes "x \<noteq> 0" and "- 1022 \<le> binade x"
  shows "\<bar>round_double x - x\<bar> \<le> 2 powi (- 53) * \<bar>x\<bar>"
proof -
  have "max (binade x - 52) (- 1074) - 1 = - 53 + binade x"
    using assms(2) by simp
  then have "\<bar>round_double x - x\<bar> \<le> 2 powi (- 53 + binade x)"
    using round_double_abs_error [OF assms(1)] by simp
  also have "\<dots> = 2 powi (- 53) * 2 powi binade x"
    by (rule power_int_add) simp
  also have "\<dots> \<le> 2 powi (- 53) * \<bar>x\<bar>"
    using binade_bounds(1) [OF assms(1)] by (simp add: mult_left_mono)
  finally show ?thesis .
qed

lemma round_double_nonneg:
  assumes "0 \<le> x"
  shows "0 \<le> round_double x"
proof (cases "x = 0")
  case True
  then show ?thesis by (simp add: round_double_def)
next
  case False
  define q where "q = max (binade x - 52) (- 1074)"
  have "of_int 0 \<le> x / 2 powi q" using assms by simp
  then have "0 \<le> round_half_even (x / 2 powi q)" by (rule round_half_even_ge)
  then show ?thesis
    using False by (simp add: round_double_def q_def Let_def)
qed

lemma round_double_le_100:
  assumes "0 \<le> x" and "x \<le> 100"
  shows "round_double x \<le> 100"
proof (cases "x = 0")
  case True
  then show ?thesis by (simp add: round_double_def)
next
  case False
  define q where "q = max (binade x - 52) (- 1074)"
  have "\<bar>x\<bar> < 2 powi 7" using assms by simp
  then have "binade x < 7" using False by (rule binade_less [rotated])
  then have q: "q \<le> 0" by (simp add: q_def)
  have pos: "(0::rat) < 2 powi q" by simp
  have p: "(2::rat) powi q = 1 / 2 ^ nat (- q)"
    using q by (simp add: power_int_def field_simps)
  have "x / 2 powi q \<le> 100 / 2 powi q"
    using assms(2) pos by (simp add: divide_right_mono)
  also have "\<dots> = of_int (100 * 2 ^ nat (- q))"
    by (simp add: p)
  finally have "round_half_even (x / 2 powi q) \<le> 100 * 2 ^ nat (- q)"
    by (rule round_half_even_le)
  then have "(of_int (round_half_even (x / 2 powi q)) :: rat) \<le> of_int (100 * 2 ^ nat (- q))"
    using of_int_le_iff by blast
  then have "of_int (round_half_even (x / 2 powi q)) * 2 powi q \<le> (of_int (100 * 2 ^ nat (- q)) :: rat) * 2 powi q"
    using pos by (simp add: mult_right_mono)
  also have "\<dots> = 100" by (simp add: p)
  finally show ?thesis
    using False by (simp add: round_double_def q_def Let_def)
qed

text \<open>
  Dividing byte counts: for a numerator below \<open>2 ^ 71\<close> and a positive divisor below
  \<open>2 ^ 64\<close> the division raises nothing, and its relative error is at most \<open>2 ^ -53\<close>.
\<close>

lemma py_truediv_u64:
  assumes "0 \<le> a" and "a < 2 ^ 71" and "0 < b" and "b < 2 ^ 64"
  shows "py_truediv a b = Inr (round_double (of_int a / of_int b))"
    and "\<bar>round_double (of_int a / of_int b) - of_int a / of_int b\<bar>
           \<le> 2 powi (- 53) * (of_int a / of_int b)"
proof -
  define x :: rat where "x = of_int a / of_int b"
  have b1: "(1::rat) \<le> of_int b" using assms(3) by simp
  have a0: "(0::rat) \<le> of_int a" using assms(1) by simp
  have x0: "0 \<le> x" using a0 b1 by (simp add: x_def)
  have "x \<le> of_int a"
    using a0 b1 by (simp add: x_def divide_le_eq mult_left_mono mult_le_cancel_left1)
  also have "\<dots> < of_int (2 ^ 71)" using assms(2) of_int_less_iff by blast
  finally have xu: "x < 2 powi 71" by simp
  have "\<bar>round_double x - x\<bar> \<le> 2 powi 18 \<and> \<bar>round_double x - x\<bar> \<le> 2 powi (- 53) * x"
  proof (cases "x = 0")
    case True
    then show ?thesis by (simp add: round_double_def)
  next
    case False
    then have apos: "0 < a" using assms(1) x_def by (cases "a = 0") simp_all
    have "binade x < 71" using False xu x0 by (intro binade_less) simp_all
    then have "max (binade x - 52) (- 1074) - 1 \<le> 18" by simp
    then have "(2::rat) powi (max (binade x - 52) (- 1074) - 1) \<le> 2 powi 18"
      by (intro power_int_increasing) simp_all
    then have e1: "\<bar>round_double x - x\<bar> \<le> 2 powi 18"
      using round_double_abs_error [OF False] by linarith
    have "(of_int b :: rat) < of_int (2 ^ 64)" using assms(4) of_int_less_iff by blast
    then have bu: "(of_int b :: rat) \<le> 2 ^ 64" by simp
    have "(1::rat) \<le> of_int a" using apos by simp
    then have "1 / 2 ^ 64 \<le> (1::rat) / of_int b"
      using bu b1 by (simp add: frac_le)
    also have "\<dots> \<le> x"
      using \<open>1 \<le> of_int a\<close> b1 by (simp add: x_def divide_right_mono)
    finally have "2 powi (- 64) \<le> \<bar>x\<bar>" using x0 by (simp add: power_int_minus_divide)
    then have "- 64 \<le> binade x" using False by (intro binade_ge) simp_all
    then have "- 1022 \<le> binade x" by simp
    then have "\<bar>round_double x - x\<bar> \<le> 2 powi (- 53) * \<bar>x\<bar>"
      using False by (intro round_double_rel_error)
    then show ?thesis using e1 x0 by simp
  qed
  then have e1: "\<bar>round_double x - x\<bar> \<le> 2 powi 18"
    and e2: "\<bar>round_double x - x\<bar> \<le> 2 powi (- 53) * x" by simp_all
  show "\<bar>round_double (of_int a / of_int b) - of_int a / of_int b\<bar>
           \<le> 2 powi (- 53) * (of_int a / of_int b)"
    using e2 by (simp add: x_def)
  have "\<bar>round_double x\<bar> \<le> x + 2 powi 18" using e1 x0 by linarith
  also have "\<dots> < 2 powi 71 + 2 powi 18" using xu by simp
  also have "\<dots> < 2 ^ 1024" by simp
  finally have "\<not> 2 ^ 1024 \<le> \<bar>round_double x\<bar>" by simp
  then show "py_truediv a b = Inr (round_double (of_int a / of_int b))"
    using assms(3) by (simp add: py_truediv_def x_def Let_def)
qed

text \<open>
  The sum of two rounded non-negative quotients, added exactly and added in binary64.
\<close>

lemma round_double_sum_error:
  assumes up: "\<bar>up - a\<bar> \<le> 2 powi (- 53) * a" and fp: "\<bar>fp - b\<bar> \<le> 2 powi (- 53) * b"
    and T: "a + b = 0 \<or> 2 powi (- 63) \<le> a + b" and a: "0 \<le> a" and b: "0 \<le> b"
  shows "\<bar>round_double (up + fp) - (a + b)\<bar> \<le> 2 powi (- 51) * (a + b)"
proof -
  define v :: rat where "v = 2 powi (- 53)"
  have v: "0 < v" "v \<le> 1 / 2" "v * (2 + v) \<le> 2 powi (- 51)" by (simp_all add: v_def)
  define s where "s = up + fp"
  define t where "t = a + b"
  have t0: "0 \<le> t" using a b by (simp add: t_def)
  have "\<bar>s - t\<bar> \<le> \<bar>up - a\<bar> + \<bar>fp - b\<bar>"
    unfolding s_def t_def by linarith
  also have "\<dots> \<le> v * a + v * b"
    using up fp unfolding v_def by (rule add_mono)
  also have "\<dots> = v * t" by (simp add: t_def distrib_left)
  finally have st: "\<bar>s - t\<bar> \<le> v * t" .
  show ?thesis
  proof (cases "s = 0")
    case True
    then have "t \<le> v * t" using st t0 by simp
    moreover have "v * t \<le> 1 / 2 * t" using v(2) t0 by (rule mult_right_mono)
    ultimately have "t = 0" using t0 by simp
    then show ?thesis using True by (simp add: round_double_def s_def t_def)
  next
    case False
    then have "t \<noteq> 0" using st by auto
    then have tl: "2 powi (- 63) \<le> t" using T by (simp add: t_def)
    have "v * t \<le> 1 / 2 * t" using v(2) t0 by (rule mult_right_mono)
    then have "1 / 2 * t \<le> s" using st by (simp add: abs_le_iff)
    moreover have "2 powi (- 64) \<le> 1 / 2 * t" using tl by simp
    ultimately have sl: "2 powi (- 64) \<le> \<bar>s\<bar>" by linarith
    have "- 64 \<le> binade s" using False sl by (rule binade_ge)
    then have "- 1022 \<le> binade s" by simp
    then have "\<bar>round_double s - s\<bar> \<le> 2 powi (- 53) * \<bar>s\<bar>"
      using False by (intro round_double_rel_error)
    then have e: "\<bar>round_double s - s\<bar> \<le> v * \<bar>s\<bar>" by (simp add: v_def)
    have "\<bar>s\<bar> \<le> t + v * t" using st t0 by (simp add: abs_le_iff)
    then have "v * \<bar>s\<bar> \<le> v * (t + v * t)" using v(1) by (simp add: mult_left_mono)
    then have "\<bar>round_double s - s\<bar> \<le> v * (t + v * t)" using e by linarith
    then have "\<bar>round_double s - t\<bar> \<le> v * (t + v * t) + v * t" using st by linarith
    also have "\<dots> = v * (2 + v) * t" by (simp add: algebra_simps)
    also have "\<dots> \<le> 2 powi (- 51) * t" using v(3) t0 by (rule mult_right_mono)
    finally show ?thesis by (simp add: s_def t_def)
  qed
qed

text \<open>The sample of the specification's example, evaluated.\<close>

lemma percentages_example:
  "percentages \<lparr>total_bytes = 1000, used_bytes = 400, free_bytes = 600\<rparr> = Inr (40, 60)"
  by code_simp

section \<open>The percentages\<close>

text \<open>
  C1. For every sample whose three byte counts fit in 64 bits and whose total is positive,
  the two divisions raise nothing; \<open>used_percentage\<close> is the exact quotient
  \<open>used * 100 / total\<close> of unbounded integers, rounded once to binary64, hence within a
  relative error of \<open>2 ^ -53\<close> of the exact value (the product by 100 is never reduced
  modulo a word size), and likewise \<open>free_percentage\<close>. For total 1000, used 400 and
  free 600 the results are exactly 40 and 60.
\<close>

theorem used_and_free_percentage:
  "(0 < total_bytes u \<and> total_bytes u < 2 ^ 64 \<and>
    0 \<le> used_bytes u \<and> used_bytes u < 2 ^ 64 \<and>
    0 \<le> free_bytes u \<and> free_bytes u < 2 ^ 64 \<longrightarrow>
    (\<exists>up fp. percentages u = Inr (up, fp)
       \<and> up = round_double (of_int (used_bytes u * 100) / of_int (total_bytes u))
       \<and> fp = round_double (of_int (free_bytes u * 100) / of_int (total_bytes u))
       \<and> \<bar>up - of_int (used_bytes u) * 100 / of_int (total_bytes u)\<bar>
            \<le> 2 powi (- 53) * (of_int (used_bytes u) * 100 / of_int (total_bytes u))
       \<and> \<bar>fp - of_int (free_bytes u) * 100 / of_int (total_bytes u)\<bar>
            \<le> 2 powi (- 53) * (of_int (free_bytes u) * 100 / of_int (total_bytes u))))
   \<and> percentages \<lparr>total_bytes = 1000, used_bytes = 400, free_bytes = 600\<rparr> = Inr (40, 60)"
proof (intro conjI impI)
  assume h: "0 < total_bytes u \<and> total_bytes u < 2 ^ 64 \<and>
    0 \<le> used_bytes u \<and> used_bytes u < 2 ^ 64 \<and>
    0 \<le> free_bytes u \<and> free_bytes u < 2 ^ 64"
  have u: "0 \<le> used_bytes u * 100" "used_bytes u * 100 < 2 ^ 71" using h by simp_all
  have f: "0 \<le> free_bytes u * 100" "free_bytes u * 100 < 2 ^ 71" using h by simp_all
  have t: "0 < total_bytes u" "total_bytes u < 2 ^ 64" using h by simp_all
  note du = py_truediv_u64 [OF u t]
  note df = py_truediv_u64 [OF f t]
  show "\<exists>up fp. percentages u = Inr (up, fp)
       \<and> up = round_double (of_int (used_bytes u * 100) / of_int (total_bytes u))
       \<and> fp = round_double (of_int (free_bytes u * 100) / of_int (total_bytes u))
       \<and> \<bar>up - of_int (used_bytes u) * 100 / of_int (total_bytes u)\<bar>
            \<le> 2 powi (- 53) * (of_int (used_bytes u) * 100 / of_int (total_bytes u))
       \<and> \<bar>fp - of_int (free_bytes u) * 100 / of_int (total_bytes u)\<bar>
            \<le> 2 powi (- 53) * (of_int (free_bytes u) * 100 / of_int (total_bytes u))"
    using du(2) df(2) by (simp add: percentages_def du(1) df(1))
next
  show "percentages \<lparr>total_bytes = 1000, used_bytes = 400, free_bytes = 600\<rparr> = Inr (40, 60)"
    by (rule percentages_example)
qed

theorem used_and_free_percentage_witness:
  "(0::int) < 2 ^ 63 \<and> (2::int) ^ 63 < 2 ^ 64 \<and> (0::int) \<le> 2 ^ 62 \<and> (2::int) ^ 62 < 2 ^ 64 \<and>
   (\<exists>up fp. percentages \<lparr>total_bytes = 2 ^ 63, used_bytes = 2 ^ 62, free_bytes = 2 ^ 62\<rparr> = Inr (up, fp)
      \<and> \<bar>up - 50\<bar> \<le> 2 powi (- 53) * 50 \<and> \<bar>fp - 50\<bar> \<le> 2 powi (- 53) * 50)"
  using used_and_free_percentage [of "\<lparr>total_bytes = 2 ^ 63, used_bytes = 2 ^ 62, free_bytes = 2 ^ 62\<rparr>"]
  by simp

text \<open>
  C7. For every sample with a positive total below \<open>2 ^ 64\<close>, non-negative used and free
  byte counts and \<open>used + free \<le> total\<close>, both percentages are computed (no exception) and
  lie between 0 and 100. Their sum differs from \<open>100 * (used + free) / total\<close> by a relative
  error of at most \<open>2 ^ -53\<close> when the two floats are added exactly, and of at most
  \<open>2 ^ -51\<close> when they are added in binary64 (one more rounding).
\<close>

theorem percentages_in_range:
  assumes "0 < total_bytes u" and "total_bytes u < 2 ^ 64"
    and "0 \<le> used_bytes u" and "0 \<le> free_bytes u"
    and "used_bytes u + free_bytes u \<le> total_bytes u"
  shows "\<exists>up fp. percentages u = Inr (up, fp)
     \<and> 0 \<le> up \<and> up \<le> 100 \<and> 0 \<le> fp \<and> fp \<le> 100
     \<and> \<bar>up + fp - 100 * of_int (used_bytes u + free_bytes u) / of_int (total_bytes u)\<bar>
          \<le> 2 powi (- 53) * (100 * of_int (used_bytes u + free_bytes u) / of_int (total_bytes u))
     \<and> \<bar>round_double (up + fp) - 100 * of_int (used_bytes u + free_bytes u) / of_int (total_bytes u)\<bar>
          \<le> 2 powi (- 51) * (100 * of_int (used_bytes u + free_bytes u) / of_int (total_bytes u))"
proof -
  define a :: rat where "a = of_int (used_bytes u * 100) / of_int (total_bytes u)"
  define b :: rat where "b = of_int (free_bytes u * 100) / of_int (total_bytes u)"
  have tpos: "(0::rat) < of_int (total_bytes u)" using assms(1) by simp
  have ule: "used_bytes u \<le> total_bytes u" and fle: "free_bytes u \<le> total_bytes u"
    using assms by simp_all
  have u: "0 \<le> used_bytes u * 100" "used_bytes u * 100 < 2 ^ 71"
    using assms ule by simp_all
  have f: "0 \<le> free_bytes u * 100" "free_bytes u * 100 < 2 ^ 71"
    using assms fle by simp_all
  note du = py_truediv_u64 [OF u assms(1,2), folded a_def]
  note df = py_truediv_u64 [OF f assms(1,2), folded b_def]
  have p: "percentages u = Inr (round_double a, round_double b)"
    by (simp add: percentages_def du(1) df(1))
  have a0: "0 \<le> a" using assms(3) tpos by (simp add: a_def)
  have b0: "0 \<le> b" using assms(4) tpos by (simp add: b_def)
  have "(of_int (used_bytes u) :: rat) \<le> of_int (total_bytes u)" using ule by simp
  then have a100: "a \<le> 100" using tpos by (simp add: a_def divide_le_eq)
  have "(of_int (free_bytes u) :: rat) \<le> of_int (total_bytes u)" using fle by simp
  then have b100: "b \<le> 100" using tpos by (simp add: b_def divide_le_eq)
  have sum: "a + b = 100 * of_int (used_bytes u + free_bytes u) / of_int (total_bytes u)"
    by (simp add: a_def b_def add_divide_distrib algebra_simps)
  have T: "a + b = 0 \<or> 2 powi (- 63) \<le> a + b"
  proof (cases "used_bytes u + free_bytes u = 0")
    case True
    then show ?thesis by (simp add: sum)
  next
    case False
    then have "1 \<le> used_bytes u + free_bytes u" using assms(3,4) by simp
    then have n: "(1::rat) \<le> of_int (used_bytes u + free_bytes u)"
      using of_int_le_iff [of 1 "used_bytes u + free_bytes u", where ?'a = rat] by simp
    have "(of_int (total_bytes u) :: rat) < of_int (2 ^ 64)"
      using assms(2) of_int_less_iff by blast
    then have tu: "(of_int (total_bytes u) :: rat) \<le> 2 ^ 64" by simp
    define r :: rat where "r = of_int (used_bytes u + free_bytes u) / of_int (total_bytes u)"
    have r: "1 / 2 ^ 64 \<le> r"
      unfolding r_def using n tu tpos by (intro frac_le) simp_all
    have "(2::rat) powi (- 63) \<le> 100 * (1 / 2 ^ 64)"
      by (simp add: power_int_minus_divide)
    also have "\<dots> \<le> 100 * r" using r by (rule mult_left_mono) simp
    also have "\<dots> = a + b" unfolding sum r_def by simp
    finally show ?thesis by simp
  qed
  have "\<bar>round_double a + round_double b - (a + b)\<bar>
          \<le> \<bar>round_double a - a\<bar> + \<bar>round_double b - b\<bar>"
    by linarith
  also have "\<dots> \<le> 2 powi (- 53) * a + 2 powi (- 53) * b"
    using du(2) df(2) by (rule add_mono)
  also have "\<dots> = 2 powi (- 53) * (a + b)" by (simp only: distrib_left)
  finally have e1: "\<bar>round_double a + round_double b - (a + b)\<bar> \<le> 2 powi (- 53) * (a + b)" .
  have e2: "\<bar>round_double (round_double a + round_double b) - (a + b)\<bar> \<le> 2 powi (- 51) * (a + b)"
    using du(2) df(2) T a0 b0 by (rule round_double_sum_error)
  show ?thesis
    using p round_double_nonneg [OF a0] round_double_nonneg [OF b0]
      round_double_le_100 [OF a0 a100] round_double_le_100 [OF b0 b100] e1 e2
    unfolding sum by blast
qed

theorem percentages_in_range_witness:
  "(0::int) < 1000 \<and> (1000::int) < 2 ^ 64 \<and> (0::int) \<le> 400 \<and> (0::int) \<le> 500 \<and>
   (400::int) + 500 \<le> 1000 \<and>
   (\<exists>up fp. percentages \<lparr>total_bytes = 1000, used_bytes = 400, free_bytes = 500\<rparr> = Inr (up, fp)
      \<and> 0 \<le> up \<and> up \<le> 100 \<and> 0 \<le> fp \<and> fp \<le> 100
      \<and> \<bar>up + fp - 90\<bar> \<le> 2 powi (- 53) * 90
      \<and> \<bar>round_double (up + fp) - 90\<bar> \<le> 2 powi (- 51) * 90)"
  using percentages_in_range [of "\<lparr>total_bytes = 1000, used_bytes = 400, free_bytes = 500\<rparr>"]
  by simp

section \<open>One pass through the loop\<close>

text \<open>
  The loop over several iterations: as long as no exception left the body, the actions of
  the iterations follow one another.
\<close>

lemma while_true_append:
  "snd (while_true key base a ws) = Running \<Longrightarrow>
   while_true key base a (ws @ ws') =
     (fst (while_true key base a ws) @ fst (while_true key base a ws'),
      snd (while_true key base a ws'))"
proof (induction ws)
  case Nil
  then show ?case by simp
next
  case (Cons w ws)
  then show ?case
    by (cases "loop_body key base a w")
       (auto split: option.splits prod.splits)
qed

text \<open>
  Once the sample is taken and the percentages are computed, the rest of the body is the
  \<open>try\<close> statement followed by the sleep.
\<close>

lemma loop_body_report:
  assumes "disk_usage w = Inr u" and "percentages u = Inr (up, fp)"
  shows "loop_body key base a w =
    (case try_except (url base a) (headers key) (json a u up fp) w of
       (evs, Some e) \<Rightarrow>
         ([DiskUsage (path a), Log DEBUG (Posting (url base a) (json a u up fp))] @ evs, Some e)
     | (evs, None) \<Rightarrow>
         ([DiskUsage (path a), Log DEBUG (Posting (url base a) (json a u up fp))] @ evs
            @ [Log DEBUG (Sleeping (interval a)), Sleep (interval a)],
          sleep w))"
  using assms by (simp add: loop_body_def Let_def split: prod.splits option.splits)

lemma try_except_cases:
  "try_except l h j w =
    (case post w of
       Inl e \<Rightarrow>
         if isinstance_Exception e then ([Post l h j, Log ERROR (GotException e)], None)
         else ([Post l h j], Some e)
     | Inr r \<Rightarrow>
         (case json_result r of
            Inl e \<Rightarrow>
              if isinstance_Exception e
              then ([Post l h j, Log DEBUG (GotResponse r), Log ERROR (GotException e)], None)
              else ([Post l h j, Log DEBUG (GotResponse r)], Some e)
          | Inr v \<Rightarrow>
              if truthy v
              then ([Post l h j, Log DEBUG (GotResponse r), Log DEBUG (ResponseJSON v)], None)
              else ([Post l h j, Log DEBUG (GotResponse r)], None)))"
  by (simp add: try_except_def try_block_def split: sum.splits)

lemma loop_body_posts:
  assumes "disk_usage w = Inr u" and "percentages u = Inr (up, fp)"
  shows "Post l h body \<in> set (fst (loop_body key base a w))
     \<longleftrightarrow> l = url base a \<and> h = headers key \<and> body = json a u up fp"
  by (auto simp: loop_body_report [OF assms] try_except_cases split: sum.splits)

lemma example_percentages: "percentages example_usage = Inr (40, 60)"
  unfolding example_usage_def by (rule percentages_example)

text \<open>The body sleeps once when the \<open>try\<close> statement ends normally, and not otherwise.\<close>

lemma sleeps_append: "sleeps (xs @ ys) = sleeps xs @ sleeps ys"
  by (induction xs rule: sleeps.induct) simp_all

lemma loop_body_sleeps:
  assumes "disk_usage w = Inr u" and "percentages u = Inr (up, fp)"
  shows "sleeps (fst (loop_body key base a w)) =
     (if snd (try_except (url base a) (headers key) (json a u up fp) w) = None
      then [interval a] else [])"
  by (simp add: loop_body_report [OF assms] try_except_cases split: sum.splits)

text \<open>
  The URL: \<open>os.path.join\<close> adds a slash after the base only when the base does not
  end with one.
\<close>

lemma endswith_sep_last: "endswith_sep p \<longleftrightarrow> p \<noteq> [] \<and> last p = CHR ''/''"
proof (cases "rev p")
  case Nil
  then show ?thesis by (simp add: endswith_sep_def)
next
  case (Cons c cs)
  then have "p = rev cs @ [c]" by (simp add: rev_swap)
  then show ?thesis using Cons by (simp add: endswith_sep_def)
qed

lemma url_eq:
  assumes "base \<noteq> []"
  shows "url base a =
    (if last base = CHR ''/'' then base else base @ ''/'')
      @ ''states/sensor.'' @ hostname a @ ''_'' @ mount a @ ''_disk_usage''"
  using assms
  by (simp add: url_def os_path_join_def join_part_def startswith_sep_def entity_id_def
      endswith_sep_last)

section \<open>Failures of the HTTP report step\<close>

text \<open>
  C2. For every exception raised during the HTTP report step, by \<open>requests.post\<close>
  (connection refused, timeout, DNS failure) or by \<open>response.json()\<close> (a body that does not
  parse), the body catches it: after the single POST (no retry) it logs the exception at
  error level, then logs and performs the sleep of the configured interval, and the body
  ends as the sleep ends, never with the caught exception; when the sleep returns, the loop
  goes on with the next sample. The cadence is unchanged by the failure: the body sleeps
  once, for the configured interval, and its sleeps and its outcome are those of the same
  iteration with a POST that succeeds. The exceptions of the report step are the instances
  of \<open>Exception\<close>, the class that the handler names.
\<close>

theorem http_exception_is_caught:
  assumes "disk_usage w = Inr u" and "percentages u = Inr (up, fp)"
    and "post w = Inl e \<or> (\<exists>r. post w = Inr r \<and> json_result r = Inl e)"
    and "isinstance_Exception e"
  shows "(\<exists>rest. (rest = [] \<or> (\<exists>r. rest = [Log DEBUG (GotResponse r)]))
     \<and> loop_body key base a w =
         ([DiskUsage (path a),
           Log DEBUG (Posting (url base a) (json a u up fp)),
           Post (url base a) (headers key) (json a u up fp)]
          @ rest
          @ [Log ERROR (GotException e),
             Log DEBUG (Sleeping (interval a)),
             Sleep (interval a)],
          sleep w))
     \<and> (sleep w = None \<longrightarrow>
          while_true key base a (w # ws) =
            (fst (loop_body key base a w) @ fst (while_true key base a ws),
             snd (while_true key base a ws)))
     \<and> sleeps (fst (loop_body key base a w)) = [interval a]
     \<and> (\<forall>(r::response) v. json_result r = Inr v \<longrightarrow>
          sleeps (fst (loop_body key base a (w\<lparr>post := Inr r\<rparr>)))
            = sleeps (fst (loop_body key base a w))
          \<and> snd (loop_body key base a (w\<lparr>post := Inr r\<rparr>))
            = snd (loop_body key base a w))"
proof -
  have body: "\<exists>rest. (rest = [] \<or> (\<exists>r. rest = [Log DEBUG (GotResponse r)]))
     \<and> loop_body key base a w =
         ([DiskUsage (path a),
           Log DEBUG (Posting (url base a) (json a u up fp)),
           Post (url base a) (headers key) (json a u up fp)]
          @ rest
          @ [Log ERROR (GotException e),
             Log DEBUG (Sleeping (interval a)),
             Sleep (interval a)],
          sleep w)"
    using assms(3)
  proof
    assume "post w = Inl e"
    then have "loop_body key base a w =
         ([DiskUsage (path a),
           Log DEBUG (Posting (url base a) (json a u up fp)),
           Post (url base a) (headers key) (json a u up fp)]
          @ []
          @ [Log ERROR (GotException e),
             Log DEBUG (Sleeping (interval a)),
             Sleep (interval a)],
          sleep w)"
      using assms(4) by (simp add: loop_body_report [OF assms(1,2)] try_except_cases)
    then show ?thesis by blast
  next
    assume "\<exists>r. post w = Inr r \<and> json_result r = Inl e"
    then obtain r where r: "post w = Inr r" "json_result r = Inl e" by blast
    then have "loop_body key base a w =
         ([DiskUsage (path a),
           Log DEBUG (Posting (url base a) (json a u up fp)),
           Post (url base a) (headers key) (json a u up fp)]
          @ [Log DEBUG (GotResponse r)]
          @ [Log ERROR (GotException e),
             Log DEBUG (Sleeping (interval a)),
             Sleep (interval a)],
          sleep w)"
      using assms(4) by (simp add: loop_body_report [OF assms(1,2)] try_except_cases)
    then show ?thesis by blast
  qed
  then have out: "snd (loop_body key base a w) = sleep w" by auto
  have next_sample: "sleep w = None \<longrightarrow>
          while_true key base a (w # ws) =
            (fst (loop_body key base a w) @ fst (while_true key base a ws),
             snd (while_true key base a ws))"
    using out by (cases "loop_body key base a w") (simp split: prod.splits)
  have caught: "snd (try_except (url base a) (headers key) (json a u up fp) w) = None"
    using assms(3,4) by (auto simp: try_except_cases)
  have sl: "sleeps (fst (loop_body key base a w)) = [interval a]"
    by (simp add: loop_body_sleeps [OF assms(1,2)] caught)
  have same: "\<forall>(r::response) v. json_result r = Inr v \<longrightarrow>
          sleeps (fst (loop_body key base a (w\<lparr>post := Inr r\<rparr>)))
            = sleeps (fst (loop_body key base a w))
          \<and> snd (loop_body key base a (w\<lparr>post := Inr r\<rparr>))
            = snd (loop_body key base a w)"
  proof (intro allI impI)
    fix r :: response and v
    assume j: "json_result r = Inr v"
    have d: "disk_usage (w\<lparr>post := Inr r\<rparr>) = Inr u" using assms(1) by simp
    have "loop_body key base a (w\<lparr>post := Inr r\<rparr>) =
      ([DiskUsage (path a),
        Log DEBUG (Posting (url base a) (json a u up fp)),
        Post (url base a) (headers key) (json a u up fp),
        Log DEBUG (GotResponse r)]
       @ (if truthy v then [Log DEBUG (ResponseJSON v)] else [])
       @ [Log DEBUG (Sleeping (interval a)), Sleep (interval a)],
       sleep w)"
      using j by (simp add: loop_body_report [OF d assms(2)] try_except_cases)
    then show "sleeps (fst (loop_body key base a (w\<lparr>post := Inr r\<rparr>)))
            = sleeps (fst (loop_body key base a w))
          \<and> snd (loop_body key base a (w\<lparr>post := Inr r\<rparr>))
            = snd (loop_body key base a w)"
      using sl out by (simp add: sleeps_append)
  qed
  show ?thesis using body next_sample sl same by blast
qed

theorem http_exception_is_caught_witness:
  "disk_usage (example_world (Inl (ConnectionError ''Connection refused''))) = Inr example_usage
   \<and> percentages example_usage = Inr (40, 60)
   \<and> isinstance_Exception (ConnectionError ''Connection refused'')
   \<and> (\<exists>rest. (rest = [] \<or> (\<exists>r. rest = [Log DEBUG (GotResponse r)]))
     \<and> loop_body ''secret'' ''http://ha:8123/api'' example_args
          (example_world (Inl (ConnectionError ''Connection refused''))) =
         ([DiskUsage (path example_args),
           Log DEBUG (Posting (url ''http://ha:8123/api'' example_args)
                        (json example_args example_usage 40 60)),
           Post (url ''http://ha:8123/api'' example_args) (headers ''secret'')
             (json example_args example_usage 40 60)]
          @ rest
          @ [Log ERROR (GotException (ConnectionError ''Connection refused'')),
             Log DEBUG (Sleeping (interval example_args)),
             Sleep (interval example_args)],
          sleep (example_world (Inl (ConnectionError ''Connection refused'')))))
   \<and> sleeps (fst (loop_body ''secret'' ''http://ha:8123/api'' example_args
          (example_world (Inl (ConnectionError ''Connection refused''))))) = [Finite 60]
   \<and> sleeps (fst (loop_body ''secret'' ''http://ha:8123/api'' example_args
          (example_world (Inr \<lparr>status_code = 200, json_result = Inr (PDict [])\<rparr>)))) = [Finite 60]"
proof -
  let ?w = "example_world (Inl (ConnectionError ''Connection refused''))"
  let ?r = "\<lparr>status_code = 200, json_result = Inr (PDict [])\<rparr>"
  have d: "disk_usage ?w = Inr example_usage" by (simp add: example_world_def)
  have p: "post ?w = Inl (ConnectionError ''Connection refused'')
      \<or> (\<exists>r. post ?w = Inr r \<and> json_result r = Inl (ConnectionError ''Connection refused''))"
    by (simp add: example_world_def)
  have i: "isinstance_Exception (ConnectionError ''Connection refused'')" by simp
  note t = http_exception_is_caught [OF d example_percentages p i,
        of "''secret''" "''http://ha:8123/api''" example_args "[]"]
  have w: "?w\<lparr>post := Inr ?r\<rparr> = example_world (Inr ?r)" by (simp add: example_world_def)
  have j: "json_result ?r = Inr (PDict [])" by simp
  have s1: "sleeps (fst (loop_body ''secret'' ''http://ha:8123/api'' example_args ?w)) = [Finite 60]"
    using t by (simp add: example_args_def)
  have "sleeps (fst (loop_body ''secret'' ''http://ha:8123/api'' example_args (?w\<lparr>post := Inr ?r\<rparr>)))
      = sleeps (fst (loop_body ''secret'' ''http://ha:8123/api'' example_args ?w))"
    using t j by blast
  then have s2: "sleeps (fst (loop_body ''secret'' ''http://ha:8123/api'' example_args
      (example_world (Inr ?r)))) = [Finite 60]"
    using s1 unfolding w by simp
  show ?thesis using t d example_percentages i s1 s2 by blast
qed

text \<open>
  Termination by signal. \<open>KeyboardInterrupt\<close>, raised when the interrupt signal arrives
  during the report step, and \<open>SystemExit\<close> are not instances of \<open>Exception\<close>: the
  handler lets them through, and they end the body with no error log and no sleep. This is
  the termination on a signal that the contract of the loop lists.
\<close>

lemma signal_leaves_loop_body:
  assumes "disk_usage w = Inr u" and "percentages u = Inr (up, fp)"
    and "post w = Inl e \<or> (\<exists>r. post w = Inr r \<and> json_result r = Inl e)"
    and "\<not> isinstance_Exception e"
  shows "snd (loop_body key base a w) = Some e"
    and "sleeps (fst (loop_body key base a w)) = []"
    and "Log ERROR (GotException e) \<notin> set (fst (loop_body key base a w))"
  using assms(3,4)
  by (auto simp: loop_body_report [OF assms(1,2)] try_except_cases)

section \<open>Logging the response body\<close>

text \<open>
  C3, as the specification states it, fails in both directions. A body that does not
  parse as JSON makes \<open>response.json()\<close> raise inside the \<open>try\<close>, and the handler logs that
  exception at error level. A body that parses to an empty object is not logged, since the
  test is the truth value of the parsed body.
\<close>

theorem response_json_logging_counterexample:
  "Log ERROR (GotException (JSONDecodeError ''Expecting value''))
     \<in> set (fst (loop_body ''secret'' ''http://ha:8123/api'' example_args
          (example_world (Inr \<lparr>status_code = 200,
             json_result = Inl (JSONDecodeError ''Expecting value'')\<rparr>))))
   \<and> Log DEBUG (ResponseJSON (PDict []))
     \<notin> set (fst (loop_body ''secret'' ''http://ha:8123/api'' example_args
          (example_world (Inr \<lparr>status_code = 200, json_result = Inr (PDict [])\<rparr>))))"
  by (simp add: loop_body_report [OF _ example_percentages] try_except_cases example_world_def)

text \<open>
  C3, amended. For every response that \<open>requests.post\<close> returns: when the body parses as
  JSON, the parsed body is logged at debug level if and only if it is truthy (not
  \<open>null\<close>, \<open>false\<close>, zero, an empty string, an empty array or an empty object); when the
  body does not parse, the exception of the parser is handled like any other failure of the
  report step: logged at error level if it is an instance of \<open>Exception\<close>, and leaving the
  body otherwise. In every case but the last the sleep follows.
\<close>

theorem response_json_logging:
  assumes "disk_usage w = Inr u" and "percentages u = Inr (up, fp)" and "post w = Inr r"
  shows "loop_body key base a w =
    (case json_result r of
       Inr v \<Rightarrow>
         ([DiskUsage (path a),
           Log DEBUG (Posting (url base a) (json a u up fp)),
           Post (url base a) (headers key) (json a u up fp),
           Log DEBUG (GotResponse r)]
          @ (if truthy v then [Log DEBUG (ResponseJSON v)] else [])
          @ [Log DEBUG (Sleeping (interval a)), Sleep (interval a)],
          sleep w)
     | Inl e \<Rightarrow>
         if isinstance_Exception e then
           ([DiskUsage (path a),
             Log DEBUG (Posting (url base a) (json a u up fp)),
             Post (url base a) (headers key) (json a u up fp),
             Log DEBUG (GotResponse r),
             Log ERROR (GotException e),
             Log DEBUG (Sleeping (interval a)), Sleep (interval a)],
            sleep w)
         else
           ([DiskUsage (path a),
             Log DEBUG (Posting (url base a) (json a u up fp)),
             Post (url base a) (headers key) (json a u up fp),
             Log DEBUG (GotResponse r)],
            Some e))"
  using assms(3)
  by (simp add: loop_body_report [OF assms(1,2)] try_except_cases split: sum.splits)

theorem response_json_logging_witness:
  "loop_body ''secret'' ''http://ha:8123/api'' example_args
     (example_world (Inr \<lparr>status_code = 200, json_result = Inr (PDict [(''state'', PStr ''40.0'')])\<rparr>))
   = ([DiskUsage ''/srv/data'',
       Log DEBUG (Posting (url ''http://ha:8123/api'' example_args)
                    (json example_args example_usage 40 60)),
       Post (url ''http://ha:8123/api'' example_args) (headers ''secret'')
         (json example_args example_usage 40 60),
       Log DEBUG (GotResponse
         \<lparr>status_code = 200, json_result = Inr (PDict [(''state'', PStr ''40.0'')])\<rparr>),
       Log DEBUG (ResponseJSON (PDict [(''state'', PStr ''40.0'')])),
       Log DEBUG (Sleeping (Finite 60)), Sleep (Finite 60)],
      None)
   \<and> loop_body ''secret'' ''http://ha:8123/api'' example_args
     (example_world (Inr \<lparr>status_code = 200, json_result = Inr (PDict [])\<rparr>))
   = ([DiskUsage ''/srv/data'',
       Log DEBUG (Posting (url ''http://ha:8123/api'' example_args)
                    (json example_args example_usage 40 60)),
       Post (url ''http://ha:8123/api'' example_args) (headers ''secret'')
         (json example_args example_usage 40 60),
       Log DEBUG (GotResponse \<lparr>status_code = 200, json_result = Inr (PDict [])\<rparr>),
       Log DEBUG (Sleeping (Finite 60)), Sleep (Finite 60)],
      None)
   \<and> loop_body ''secret'' ''http://ha:8123/api'' example_args
     (example_world (Inr \<lparr>status_code = 502,
        json_result = Inl (JSONDecodeError ''Expecting value'')\<rparr>))
   = ([DiskUsage ''/srv/data'',
       Log DEBUG (Posting (url ''http://ha:8123/api'' example_args)
                    (json example_args example_usage 40 60)),
       Post (url ''http://ha:8123/api'' example_args) (headers ''secret'')
         (json example_args example_usage 40 60),
       Log DEBUG (GotResponse
         \<lparr>status_code = 502, json_result = Inl (JSONDecodeError ''Expecting value'')\<rparr>),
       Log ERROR (GotException (JSONDecodeError ''Expecting value'')),
       Log DEBUG (Sleeping (Finite 60)), Sleep (Finite 60)],
      None)"
  using
    response_json_logging [of
      "example_world (Inr \<lparr>status_code = 200, json_result = Inr (PDict [(''state'', PStr ''40.0'')])\<rparr>)"
      example_usage 40 60
      "\<lparr>status_code = 200, json_result = Inr (PDict [(''state'', PStr ''40.0'')])\<rparr>"
      "''secret''" "''http://ha:8123/api''" example_args]
    response_json_logging [of
      "example_world (Inr \<lparr>status_code = 200, json_result = Inr (PDict [])\<rparr>)"
      example_usage 40 60
      "\<lparr>status_code = 200, json_result = Inr (PDict [])\<rparr>"
      "''secret''" "''http://ha:8123/api''" example_args]
    response_json_logging [of
      "example_world (Inr \<lparr>status_code = 502,
         json_result = Inl (JSONDecodeError ''Expecting value'')\<rparr>)"
      example_usage 40 60
      "\<lparr>status_code = 502, json_result = Inl (JSONDecodeError ''Expecting value'')\<rparr>"
      "''secret''" "''http://ha:8123/api''" example_args]
  by (simp add: example_world_def example_percentages example_args_def)

section \<open>Startup checks\<close>

text \<open>
  C4. If the API key or the API base URL is missing at startup (the environment variable
  unset, or no URL given), \<open>main\<close> ends at once with an \<open>AssertionError\<close> whose message
  names the missing setting; no action has been performed: no disk sample, no HTTP
  request.
\<close>

theorem missing_configuration:
  assumes "getenv_key = None \<or> ha_rest_api_url a = None"
  shows "main getenv_key a ws =
    ([], Terminated (AssertionError
       (if getenv_key = None \<or> getenv_key = Some []
        then ''Need to specify HA_API_KEY in environment!''
        else ''Please specify HA_REST_API_URL'')))"
  using assms by (auto simp: main_def split: option.splits)

theorem missing_configuration_witness:
  "main None example_args [example_world (Inr \<lparr>status_code = 200, json_result = Inr (PDict [])\<rparr>)]
    = ([], Terminated (AssertionError ''Need to specify HA_API_KEY in environment!''))
   \<and> main (Some ''secret'') (example_args\<lparr>ha_rest_api_url := None\<rparr>)
        [example_world (Inr \<lparr>status_code = 200, json_result = Inr (PDict [])\<rparr>)]
    = ([], Terminated (AssertionError ''Please specify HA_REST_API_URL''))"
  using missing_configuration [of None example_args
      "[example_world (Inr \<lparr>status_code = 200, json_result = Inr (PDict [])\<rparr>)]"]
    missing_configuration [of "Some ''secret''" "example_args\<lparr>ha_rest_api_url := None\<rparr>"
      "[example_world (Inr \<lparr>status_code = 200, json_result = Inr (PDict [])\<rparr>)]"]
  by simp

text \<open>
  C5. For every interval less than or equal to zero, \<open>main\<close> ends with an
  \<open>AssertionError\<close> before any action; when the key and the URL are given, the message is
  that of the interval check. For every interval greater than zero, with the key and the
  URL given, the check passes and \<open>main\<close> is the loop.
\<close>

theorem nonpositive_interval:
  "(float_le_zero (interval a) \<longrightarrow>
      (\<exists>msg. main getenv_key a ws = ([], Terminated (AssertionError msg))))
   \<and> (float_le_zero (interval a) \<and> getenv_key = Some key \<and> key \<noteq> [] \<and>
        ha_rest_api_url a = Some base \<and> base \<noteq> [] \<longrightarrow>
      main getenv_key a ws =
        ([], Terminated (AssertionError ''Stubbornly refusing to run tight loop'')))
   \<and> (float_gt_zero (interval a) \<and> getenv_key = Some key \<and> key \<noteq> [] \<and>
        ha_rest_api_url a = Some base \<and> base \<noteq> [] \<longrightarrow>
      main getenv_key a ws = while_true key base a ws)"
  by (cases "interval a") (auto simp: main_def split: option.splits)

theorem nonpositive_interval_witness:
  "float_le_zero (Finite 0) \<and> float_le_zero (Finite (- 5)) \<and> float_gt_zero (Finite 60)
   \<and> main (Some ''secret'') (example_args\<lparr>interval := Finite 0\<rparr>)
        [example_world (Inl (Timeout ''timed out''))]
      = ([], Terminated (AssertionError ''Stubbornly refusing to run tight loop''))
   \<and> main (Some ''secret'') (example_args\<lparr>interval := Finite (- 5)\<rparr>)
        [example_world (Inl (Timeout ''timed out''))]
      = ([], Terminated (AssertionError ''Stubbornly refusing to run tight loop''))
   \<and> main (Some ''secret'') example_args [example_world (Inl (Timeout ''timed out''))]
      = while_true ''secret'' ''http://ha:8123/api'' example_args
          [example_world (Inl (Timeout ''timed out''))]"
  using
    nonpositive_interval [of "example_args\<lparr>interval := Finite 0\<rparr>" "Some ''secret''"
      "[example_world (Inl (Timeout ''timed out''))]" "''secret''" "''http://ha:8123/api''"]
    nonpositive_interval [of "example_args\<lparr>interval := Finite (- 5)\<rparr>" "Some ''secret''"
      "[example_world (Inl (Timeout ''timed out''))]" "''secret''" "''http://ha:8123/api''"]
    nonpositive_interval [of example_args "Some ''secret''"
      "[example_world (Inl (Timeout ''timed out''))]" "''secret''" "''http://ha:8123/api''"]
  by (simp add: example_args_def)

text \<open>
  C10. An empty string as API key, or as base URL, is rejected exactly as an absent one:
  \<open>main\<close> gives the same result, an \<open>AssertionError\<close> before any action.
\<close>

theorem empty_string_configuration:
  "main (Some []) a ws = main None a ws
   \<and> main getenv_key (a\<lparr>ha_rest_api_url := Some []\<rparr>) ws
       = main getenv_key (a\<lparr>ha_rest_api_url := None\<rparr>) ws
   \<and> (\<exists>msg. main (Some []) a ws = ([], Terminated (AssertionError msg)))
   \<and> (\<exists>msg. main getenv_key (a\<lparr>ha_rest_api_url := Some []\<rparr>) ws
          = ([], Terminated (AssertionError msg)))"
  by (auto simp: main_def split: option.splits)

theorem empty_string_configuration_witness:
  "main (Some []) example_args [example_world (Inl (Timeout ''timed out''))]
     = ([], Terminated (AssertionError ''Need to specify HA_API_KEY in environment!''))
   \<and> main (Some ''secret'') (example_args\<lparr>ha_rest_api_url := Some []\<rparr>)
        [example_world (Inl (Timeout ''timed out''))]
     = ([], Terminated (AssertionError ''Please specify HA_REST_API_URL''))"
  using
    empty_string_configuration [of example_args "[example_world (Inl (Timeout ''timed out''))]"
      "Some ''secret''"]
  by (simp add: main_def example_args_def)

section \<open>The request\<close>

text \<open>
  C6, as the specification states it, fails for a base URL that ends with a slash:
  \<open>os.path.join\<close> then adds no slash of its own, so the URL is not the base followed by
  \<open>/states/sensor...\<close>.
\<close>

theorem report_url_counterexample:
  "url ''http://ha:8123/api/'' example_args
     \<noteq> ''http://ha:8123/api/'' @ ''/states/sensor.'' @ hostname example_args @ ''_''
         @ mount example_args @ ''_disk_usage''
   \<and> Post (''http://ha:8123/api/'' @ ''/states/sensor.'' @ hostname example_args @ ''_''
         @ mount example_args @ ''_disk_usage'')
        (headers ''secret'') (json example_args example_usage 40 60)
     \<notin> set (fst (loop_body ''secret'' ''http://ha:8123/api/'' example_args
          (example_world (Inr \<lparr>status_code = 200, json_result = Inr (PDict [])\<rparr>))))"
proof -
  have d: "disk_usage (example_world (Inr \<lparr>status_code = 200, json_result = Inr (PDict [])\<rparr>))
      = Inr example_usage"
    by (simp add: example_world_def)
  show ?thesis
    by (simp add: loop_body_posts [OF d example_percentages] url_eq example_args_def)
qed

text \<open>
  C6, amended. For every hostname, mount and non-empty base URL, the URL is the base URL,
  followed by a slash unless the base URL already ends with one, followed by
  \<open>states/sensor.{hostname}_{mount}_disk_usage\<close>, with hostname and mount inserted as they
  are. Every iteration that reaches the report step POSTs to that URL and to no other.
  Hostname \<open>nas1\<close> and mount \<open>data\<close> give the identifier
  \<open>sensor.nas1_data_disk_usage\<close>.
\<close>

theorem report_url:
  assumes "base \<noteq> []" and "disk_usage w = Inr u" and "percentages u = Inr (up, fp)"
  shows "url base a =
      (if last base = CHR ''/'' then base else base @ ''/'')
        @ ''states/sensor.'' @ hostname a @ ''_'' @ mount a @ ''_disk_usage''
    \<and> (\<exists>h body. Post (url base a) h body \<in> set (fst (loop_body key base a w)))
    \<and> (\<forall>l h body. Post l h body \<in> set (fst (loop_body key base a w)) \<longrightarrow> l = url base a)
    \<and> entity_id (a\<lparr>hostname := ''nas1'', mount := ''data''\<rparr>) = ''sensor.nas1_data_disk_usage''"
  using url_eq [OF assms(1), of a]
  by (simp add: loop_body_posts [OF assms(2,3)] entity_id_def)

theorem report_url_witness:
  "''http://ha:8123/api'' \<noteq> []
   \<and> url ''http://ha:8123/api'' example_args
       = ''http://ha:8123/api/states/sensor.nas1_data_disk_usage''
   \<and> url ''http://ha:8123/api/'' example_args
       = ''http://ha:8123/api/states/sensor.nas1_data_disk_usage''
   \<and> (\<exists>h body. Post ''http://ha:8123/api/states/sensor.nas1_data_disk_usage'' h body
         \<in> set (fst (loop_body ''secret'' ''http://ha:8123/api'' example_args
              (example_world (Inl (Timeout ''timed out''))))))"
proof -
  have d: "disk_usage (example_world (Inl (Timeout ''timed out''))) = Inr example_usage"
    by (simp add: example_world_def)
  have n: "''http://ha:8123/api'' \<noteq> []" and n': "''http://ha:8123/api/'' \<noteq> []" by simp_all
  note r = report_url [OF n d example_percentages, of example_args "''secret''"]
  note r' = report_url [OF n' d example_percentages, of example_args "''secret''"]
  have u: "url ''http://ha:8123/api'' example_args
       = ''http://ha:8123/api/states/sensor.nas1_data_disk_usage''"
    using r by (simp add: example_args_def)
  have u': "url ''http://ha:8123/api/'' example_args
       = ''http://ha:8123/api/states/sensor.nas1_data_disk_usage''"
    using r' by (simp add: example_args_def)
  have "\<exists>h body. Post (url ''http://ha:8123/api'' example_args) h body
         \<in> set (fst (loop_body ''secret'' ''http://ha:8123/api'' example_args
              (example_world (Inl (Timeout ''timed out'')))))"
    using r by blast
  then show ?thesis using u u' n by simp
qed

text \<open>
  C8. In every iteration that reaches the report step, the only request is the POST whose
  body is the dict with exactly the key \<open>state\<close>, holding the used percentage, and the key
  \<open>attributes\<close>, holding exactly \<open>friendly_name\<close> (hostname, a space, mount and
  \<open>Disk Usage\<close>), \<open>unit_of_measurement\<close> (\<open>%\<close>), \<open>used_percentage\<close>, \<open>free_percentage\<close>,
  \<open>total_bytes\<close>, \<open>used_bytes\<close> and \<open>free_bytes\<close> of that iteration's sample. The body
  depends on nothing but the sample, the hostname and the mount.
\<close>

theorem report_body:
  assumes "disk_usage w = Inr u" and "percentages u = Inr (up, fp)"
  shows "Post l h body \<in> set (fst (loop_body key base a w)) \<longleftrightarrow>
    l = url base a \<and> h = [(''Authorization'', ''Bearer '' @ key)] \<and>
    body = PDict [
      (''state'', PFloat (Finite up)),
      (''attributes'', PDict [
         (''friendly_name'', PStr (hostname a @ '' '' @ mount a @ '' Disk Usage'')),
         (''unit_of_measurement'', PStr ''%''),
         (''used_percentage'', PFloat (Finite up)),
         (''free_percentage'', PFloat (Finite fp)),
         (''total_bytes'', PInt (total_bytes u)),
         (''used_bytes'', PInt (used_bytes u)),
         (''free_bytes'', PInt (free_bytes u))])]"
  by (simp add: loop_body_posts [OF assms] json_def headers_def)

theorem report_body_witness:
  "Post ''http://ha:8123/api/states/sensor.nas1_data_disk_usage''
     [(''Authorization'', ''Bearer secret'')]
     (PDict [
      (''state'', PFloat (Finite 40)),
      (''attributes'', PDict [
         (''friendly_name'', PStr ''nas1 data Disk Usage''),
         (''unit_of_measurement'', PStr ''%''),
         (''used_percentage'', PFloat (Finite 40)),
         (''free_percentage'', PFloat (Finite 60)),
         (''total_bytes'', PInt 1000),
         (''used_bytes'', PInt 400),
         (''free_bytes'', PInt 600)])])
   \<in> set (fst (loop_body ''secret'' ''http://ha:8123/api'' example_args
          (example_world (Inr \<lparr>status_code = 200, json_result = Inr (PDict [])\<rparr>))))"
proof -
  have d: "disk_usage (example_world (Inr \<lparr>status_code = 200, json_result = Inr (PDict [])\<rparr>))
      = Inr example_usage"
    by (simp add: example_world_def)
  show ?thesis
    unfolding report_body [OF d example_percentages]
    by (simp add: url_eq example_args_def example_usage_def)
qed

section \<open>Failure of the disk query\<close>

text \<open>
  C9. An exception raised by \<open>shutil.disk_usage\<close> leaves the loop body at once: nothing
  is posted, logged or slept, and the loop, hence \<open>main\<close>, ends with that exception, in the
  first iteration or in any later one. The same exception raised by \<open>requests.post\<close>
  instead, when it is an instance of \<open>Exception\<close>, does not leave the body.
\<close>

theorem disk_usage_failure_is_fatal:
  assumes "disk_usage w = Inl e"
  shows "loop_body key base a w = ([DiskUsage (path a)], Some e)
    \<and> while_true key base a (w # ws) = ([DiskUsage (path a)], Terminated e)
    \<and> (snd (while_true key base a before) = Running \<longrightarrow>
         while_true key base a (before @ w # ws)
           = (fst (while_true key base a before) @ [DiskUsage (path a)], Terminated e))
    \<and> (getenv_key = Some key \<and> key \<noteq> [] \<and> ha_rest_api_url a = Some base \<and> base \<noteq> [] \<and>
        float_gt_zero (interval a) \<longrightarrow>
         main getenv_key a (w # ws) = ([DiskUsage (path a)], Terminated e))
    \<and> (isinstance_Exception e \<and> percentages u = Inr (up, fp) \<longrightarrow>
         snd (loop_body key base a (w\<lparr>disk_usage := Inr u, post := Inl e\<rparr>)) = sleep w)"
proof -
  have b: "loop_body key base a w = ([DiskUsage (path a)], Some e)"
    using assms by (simp add: loop_body_def)
  then have s: "while_true key base a (w # ws) = ([DiskUsage (path a)], Terminated e)"
    by simp
  have t: "snd (while_true key base a before) = Running \<longrightarrow>
         while_true key base a (before @ w # ws)
           = (fst (while_true key base a before) @ [DiskUsage (path a)], Terminated e)"
    using s by (simp add: while_true_append)
  have m: "getenv_key = Some key \<and> key \<noteq> [] \<and> ha_rest_api_url a = Some base \<and> base \<noteq> [] \<and>
        float_gt_zero (interval a) \<longrightarrow>
         main getenv_key a (w # ws) = ([DiskUsage (path a)], Terminated e)"
    using s by (simp add: main_def)
  have c: "isinstance_Exception e \<and> percentages u = Inr (up, fp) \<longrightarrow>
         snd (loop_body key base a (w\<lparr>disk_usage := Inr u, post := Inl e\<rparr>)) = sleep w"
  proof
    assume h: "isinstance_Exception e \<and> percentages u = Inr (up, fp)"
    have d: "disk_usage (w\<lparr>disk_usage := Inr u, post := Inl e\<rparr>) = Inr u" by simp
    show "snd (loop_body key base a (w\<lparr>disk_usage := Inr u, post := Inl e\<rparr>)) = sleep w"
      using h by (simp add: loop_body_report [OF d conjunct2 [OF h]] try_except_cases)
  qed
  show ?thesis using b s t m c by blast
qed

theorem disk_usage_failure_is_fatal_witness:
  "disk_usage ((example_world (Inl (Timeout ''timed out'')))
       \<lparr>disk_usage := Inl (OSError ''No such file or directory'')\<rparr>)
     = Inl (OSError ''No such file or directory'')
   \<and> main (Some ''secret'') example_args
        [(example_world (Inl (Timeout ''timed out'')))
           \<lparr>disk_usage := Inl (OSError ''No such file or directory'')\<rparr>,
         example_world (Inl (Timeout ''timed out''))]
     = ([DiskUsage ''/srv/data''], Terminated (OSError ''No such file or directory''))
   \<and> snd (loop_body ''secret'' ''http://ha:8123/api'' example_args
        (example_world (Inl (OSError ''No such file or directory'')))) = None"
proof -
  let ?e = "OSError ''No such file or directory''"
  let ?w = "(example_world (Inl (Timeout ''timed out'')))\<lparr>disk_usage := Inl ?e\<rparr>"
  have d: "disk_usage ?w = Inl ?e" by simp
  have w: "?w\<lparr>disk_usage := Inr example_usage, post := Inl ?e\<rparr> = example_world (Inl ?e)"
    by (simp add: example_world_def)
  note f = disk_usage_failure_is_fatal [OF d, of "''secret''" "''http://ha:8123/api''" example_args
      "[example_world (Inl (Timeout ''timed out''))]" "[]" "Some ''secret''"
      example_usage 40 60]
  have "main (Some ''secret'') example_args [?w, example_world (Inl (Timeout ''timed out''))]
     = ([DiskUsage ''/srv/data''], Terminated ?e)"
    using f by (simp add: example_args_def)
  moreover have "snd (loop_body ''secret'' ''http://ha:8123/api'' example_args
        (example_world (Inl ?e))) = None"
    using f example_percentages unfolding w by (simp add: example_world_def)
  ultimately show ?thesis using d by blast
qed

end
